theory Spec2Isabelle
  imports Complex_Main "HOL-Library.Word" "HOL-Library.Log_Nat"
begin

section \<open>HOCRPdfExporter: a shallow embedding\<close>

text \<open>
  The development follows \<^verbatim>\<open>src/qt/src/hocr/HOCRPdfExporter.cc\<close>. C++ \<^verbatim>\<open>int\<close> is
  modelled as \<^typ>\<open>int\<close> (Qt refuses an image whose width times depth exceeds
  \<^verbatim>\<open>INT_MAX\<close>, so the products formed in the Zip branch stay inside 32 bits), a
  C++ \<^verbatim>\<open>double\<close> as the \<^typ>\<open>real\<close> it denotes. Where the source accumulates a double
  over the iterations of a loop (the \<open>y\<close> of the line loop), every operation is rounded
  to a double, as the machine does; a single expression that a property repeats as it
  stands (a product, a quotient) is kept exact. The conversion of a double to an int
  truncates towards zero, as does integer division.
\<close>

unbundle bit_operations_syntax

subsection \<open>C++ arithmetic\<close>

definition c_div :: "int \<Rightarrow> int \<Rightarrow> int" where
  "c_div a b = sgn a * sgn b * (\<bar>a\<bar> div \<bar>b\<bar>)"

definition c_mod :: "int \<Rightarrow> int \<Rightarrow> int" where
  "c_mod a b = a - b * c_div a b"

definition to_int :: "real \<Rightarrow> int" where
  "to_int r = (if 0 \<le> r then \<lfloor>r\<rfloor> else \<lceil>r\<rceil>)"

definition bool_to_int :: "bool \<Rightarrow> int" where
  "bool_to_int b = (if b then 1 else 0)"

subsection \<open>Arithmetic on doubles\<close>

text \<open>
  An IEEE 754 binary64 operation yields the exact result rounded to the nearest number
  with a significand of 53 bits, a tie going to the even significand. \<open>binade a\<close> is
  the exponent \<open>e\<close> with \<open>2 ^ e \<le> a < 2 ^ (e + 1)\<close>, for \<open>a > 0\<close>. The exponent is not
  bounded here: overflow and subnormal numbers lie far from the pixel coordinates the
  exporter computes.
\<close>

definition binade :: "real \<Rightarrow> int" where
  "binade a = (if 1 \<le> a then int (floorlog 2 (nat \<lfloor>a\<rfloor>)) - 1
               else - int (floorlog 2 (nat (\<lceil>1 / a\<rceil> - 1))))"

definition round_even :: "real \<Rightarrow> int" where
  "round_even q =
     (let f = \<lfloor>q\<rfloor>; r = q - real_of_int f
      in if r < 1 / 2 then f else if 1 / 2 < r then f + 1 else if even f then f else f + 1)"

definition double_round :: "real \<Rightarrow> real" where
  "double_round x =
     (if x = 0 then 0
      else let u = 2 powi (binade \<bar>x\<bar> - 52)
           in sgn x * real_of_int (round_even (\<bar>x\<bar> / u)) * u)"

definition dadd :: "real \<Rightarrow> real \<Rightarrow> real" where
  "dadd a b = double_round (a + b)"

definition dmul :: "real \<Rightarrow> real \<Rightarrow> real" where
  "dmul a b = double_round (a * b)"

definition ddiv :: "real \<Rightarrow> real \<Rightarrow> real" where
  "ddiv a b = double_round (a / b)"

subsection \<open>Qt value types\<close>

text \<open>
  A \<^verbatim>\<open>QRect\<close> is given by its left and top edge and its size; \<^verbatim>\<open>right()\<close> and
  \<^verbatim>\<open>bottom()\<close> are Qt's: the last column and row inside the rectangle.
\<close>

record QRect =
  rx :: int
  ry :: int
  rwidth :: int
  rheight :: int

definition rleft :: "QRect \<Rightarrow> int" where
  "rleft r = rx r"

definition rtop :: "QRect \<Rightarrow> int" where
  "rtop r = ry r"

definition rright :: "QRect \<Rightarrow> int" where
  "rright r = rx r + rwidth r - 1"

definition rbottom :: "QRect \<Rightarrow> int" where
  "rbottom r = ry r + rheight r - 1"

definition mkQRect :: "real \<Rightarrow> real \<Rightarrow> real \<Rightarrow> real \<Rightarrow> QRect" where
  "mkQRect x y w h = \<lparr>rx = to_int x, ry = to_int y, rwidth = to_int w, rheight = to_int h\<rparr>"

datatype Format = Format_Invalid | Format_Mono | Format_Grayscale8 | Format_RGB888 | Format_ARGB32

datatype ConversionFlags = AutoColor | ThresholdDither | DiffuseDither

type_synonym byte = "8 word"

text \<open>
  A \<^verbatim>\<open>QImage\<close>: its format, its size in pixels and its scan lines. Each scan line
  is padded to a multiple of 32 bits (the source's comment at the Zip branch).
\<close>

record QImage =
  iformat :: Format
  iwidth :: int
  iheight :: int
  scanLines :: "byte list list"

definition depth :: "Format \<Rightarrow> int" where
  "depth f = (case f of Format_Invalid \<Rightarrow> 0 | Format_Mono \<Rightarrow> 1 | Format_Grayscale8 \<Rightarrow> 8
     | Format_RGB888 \<Rightarrow> 24 | Format_ARGB32 \<Rightarrow> 32)"

definition qt_bytesPerLine :: "Format \<Rightarrow> int \<Rightarrow> int" where
  "qt_bytesPerLine f w = ((w * depth f + 31) div 32) * 4"

definition image_ok :: "QImage \<Rightarrow> bool" where
  "image_ok img = (0 \<le> iwidth img \<and> 0 \<le> iheight img \<and>
     int (length (scanLines img)) = iheight img \<and>
     list_all (\<lambda>l. int (length l) = qt_bytesPerLine (iformat img) (iwidth img)) (scanLines img))"

subsection \<open>Export settings\<close>

datatype Compression = CompressZip | CompressFax4 | CompressJpeg

record PDFSettings =
  colorFormat :: Format
  conversionFlags :: ConversionFlags
  compression :: Compression
  compressionQuality :: int
  useDetectedFontSizes :: bool
  uniformizeLineSpacing :: bool
  preserveSpaceWidth :: int
  overlay :: bool
  detectedFontScaling :: real

subsection \<open>The Zip branch of \<^verbatim>\<open>PoDoFoPDFPainter::drawImage\<close>\<close>

definition sampleSize :: "Format \<Rightarrow> int" where
  "sampleSize cf = (if cf = Format_Mono then 1 else 8)"

definition numComponents :: "Format \<Rightarrow> int" where
  "numComponents cf = (if cf = Format_RGB888 then 3 else 1)"

definition bytesPerLine :: "Format \<Rightarrow> int \<Rightarrow> int" where
  "bytesPerLine cf width =
     numComponents cf * (c_div (width * sampleSize cf) 8
       + bool_to_int (c_mod (width * sampleSize cf) 8 \<noteq> 0))"

text \<open>
  \<^verbatim>\<open>memcpy(dst + off, src, n)\<close> on a buffer held as a list: \<open>n\<close> bytes of the
  destination, from \<open>off\<close> on, are replaced by the first \<open>n\<close> bytes of the source.
\<close>

definition memcpy :: "byte list \<Rightarrow> nat \<Rightarrow> byte list \<Rightarrow> nat \<Rightarrow> byte list" where
  "memcpy dst off src n = take off dst @ take n src @ drop (off + n) dst"

fun packLoop :: "nat \<Rightarrow> byte list list \<Rightarrow> nat \<Rightarrow> byte list \<Rightarrow> byte list" where
  "packLoop bpl [] y buf = buf"
| "packLoop bpl (l # ls) y buf = packLoop bpl ls (Suc y) (memcpy buf (y * bpl) l bpl)"

definition packRows :: "Format \<Rightarrow> QImage \<Rightarrow> byte list" where
  "packRows cf img =
     (let bpl = bytesPerLine cf (iwidth img) in
      packLoop (nat bpl) (scanLines img) 0 (replicate (nat (bpl * iheight img)) 0))"

subsection \<open>The hOCR item tree\<close>

text \<open>
  \<^verbatim>\<open>HOCRItem\<close> is declared outside this file; the exporter reads its enabled flag,
  class, bounding box, baseline, font size, text and children.
\<close>

datatype HOCRItem =
  HOCRItem (isEnabled: bool) (itemClass: string) (bbox: QRect) (baseLine: int)
    (fontSize: real) (itemText: string) (children: "HOCRItem list")

record HOCRPage =
  pageItem :: HOCRItem
  sourceFile :: string
  resolution :: int
  title :: string

subsection \<open>The painter interface\<close>

text \<open>
  \<^verbatim>\<open>PDFPainter\<close> is an abstract class; a painter is its table of methods over the
  state \<open>'s\<close> of the implementation.
\<close>

record 's PDFPainter =
  setFontSize :: "real \<Rightarrow> 's \<Rightarrow> 's"
  drawText :: "real \<Rightarrow> real \<Rightarrow> string \<Rightarrow> 's \<Rightarrow> 's"
  drawImage :: "QRect \<Rightarrow> QImage \<Rightarrow> PDFSettings \<Rightarrow> 's \<Rightarrow> 's"
  getAverageCharWidth :: "'s \<Rightarrow> real"
  getTextWidth :: "string \<Rightarrow> 's \<Rightarrow> real"

text \<open>
  A painter that only records the calls it receives. Its answers to the two
  measuring methods are parameters, and may depend on the calls so far.
\<close>

datatype Call = SetFontSize real | DrawText real real string | DrawImage QRect QImage

definition recorder :: "(Call list \<Rightarrow> real) \<Rightarrow> (string \<Rightarrow> Call list \<Rightarrow> real) \<Rightarrow> Call list PDFPainter"
  where
  "recorder avgw txtw =
     \<lparr>setFontSize = (\<lambda>pointSize s. s @ [SetFontSize pointSize]),
      drawText = (\<lambda>x y t s. s @ [DrawText x y t]),
      drawImage = (\<lambda>r img st s. s @ [DrawImage r img]),
      getAverageCharWidth = avgw,
      getTextWidth = txtw\<rparr>"

fun drawTexts :: "Call list \<Rightarrow> (real \<times> real \<times> string) list" where
  "drawTexts [] = []"
| "drawTexts (DrawText x y t # cs) = (x, y, t) # drawTexts cs"
| "drawTexts (c # cs) = drawTexts cs"

subsection \<open>\<^verbatim>\<open>HOCRPdfExporter::printChildren\<close>\<close>

datatype fault = IndexOutOfRange

text \<open>
  The body of the word loop of the uniform-spacing branch (lines 428 to 445), on the
  loop's variables \<open>x\<close>, \<open>prevWordRight\<close> and the painter. \<open>ytext\<close> is the value of
  \<^verbatim>\<open>y + baseline\<close>.
\<close>

definition wordStep ::
  "'s PDFPainter \<Rightarrow> PDFSettings \<Rightarrow> real \<Rightarrow> HOCRItem \<Rightarrow> int \<times> int \<times> 's \<Rightarrow> int \<times> int \<times> 's" where
  "wordStep P pdfSettings ytext wordItem c =
     (case c of (x, prevWordRight, s) \<Rightarrow>
        if \<not> isEnabled wordItem then (x, prevWordRight, s)
        else
          let wordRect = bbox wordItem;
              s1 = (if useDetectedFontSizes pdfSettings
                    then setFontSize P (fontSize wordItem * detectedFontScaling pdfSettings) s
                    else s);
              x1 = (if real_of_int (rx wordRect - prevWordRight)
                         > real_of_int (preserveSpaceWidth pdfSettings) * getAverageCharWidth P s1
                    then rx wordRect else x);
              s2 = drawText P (real_of_int x1) ytext (itemText wordItem) s1;
              x2 = to_int (real_of_int x1 + getTextWidth P (itemText wordItem @ '' '') s2)
          in (x2, rright wordRect, s2))"

definition wordLoop ::
  "'s PDFPainter \<Rightarrow> PDFSettings \<Rightarrow> real \<Rightarrow> HOCRItem list \<Rightarrow> int \<times> int \<times> 's \<Rightarrow> int \<times> int \<times> 's" where
  "wordLoop P pdfSettings ytext ws c = fold (wordStep P pdfSettings ytext) ws c"

text \<open>
  The line loop of the uniform-spacing branch (lines 424 to 446): \<^verbatim>\<open>y += yInc\<close> and
  \<^verbatim>\<open>y + baseline\<close> are additions of doubles.
\<close>

fun lineLoop ::
  "'s PDFPainter \<Rightarrow> PDFSettings \<Rightarrow> QRect \<Rightarrow> int \<Rightarrow> real \<Rightarrow> HOCRItem list \<Rightarrow> real \<Rightarrow> 's \<Rightarrow> 's" where
  "lineLoop P pdfSettings itemRect baseline yInc [] y s = s"
| "lineLoop P pdfSettings itemRect baseline yInc (lineItem # ls) y s =
     lineLoop P pdfSettings itemRect baseline yInc ls (dadd y yInc)
       (snd (snd (wordLoop P pdfSettings (dadd y (real_of_int baseline)) (children lineItem)
          (rx itemRect, rx itemRect, s))))"

text \<open>
  \<^verbatim>\<open>childCount > 0 ? item->children()[0]->baseLine() : 0\<close>: indexing a \<^verbatim>\<open>QList\<close>
  out of range is a fault.
\<close>

definition firstBaseLine :: "HOCRItem list \<Rightarrow> fault + int" where
  "firstBaseLine cs =
     (if 0 < length cs then (case cs of [] \<Rightarrow> Inl IndexOutOfRange | c # _ \<Rightarrow> Inr (baseLine c))
      else Inr 0)"

text \<open>The body of the word loop of the line branch (lines 450 to 457).\<close>

definition lineWordStep :: "'s PDFPainter \<Rightarrow> PDFSettings \<Rightarrow> real \<Rightarrow> HOCRItem \<Rightarrow> 's \<Rightarrow> 's" where
  "lineWordStep P pdfSettings y wordItem s =
     (let wordRect = bbox wordItem;
          s1 = (if useDetectedFontSizes pdfSettings
                then setFontSize P (fontSize wordItem * detectedFontScaling pdfSettings) s
                else s)
      in drawText P (real_of_int (rx wordRect)) y (itemText wordItem) s1)"

text \<open>
  \<open>getSelection\<close> stands for \<^verbatim>\<open>m_displayerTool->getSelection\<close>, the page rasterizer.
  A division of doubles by zero is no fault in C++; the quotient \<open>yInc\<close> is not used
  when there are no children.
\<close>

function printChildren ::
    "'s PDFPainter \<Rightarrow> (QRect \<Rightarrow> QImage) \<Rightarrow> HOCRItem \<Rightarrow> PDFSettings \<Rightarrow> real \<Rightarrow> 's \<Rightarrow> fault + 's"
  and printEach ::
    "'s PDFPainter \<Rightarrow> (QRect \<Rightarrow> QImage) \<Rightarrow> HOCRItem list \<Rightarrow> PDFSettings \<Rightarrow> real \<Rightarrow> 's \<Rightarrow> fault + 's"
  where
  "printChildren P getSelection item pdfSettings imgScale s =
     (if \<not> isEnabled item then Inr s
      else
        let itemRect = bbox item;
            childCount = length (children item)
        in
        if itemClass item = ''ocr_par'' \<and> uniformizeLineSpacing pdfSettings then
          (let yInc = ddiv (real_of_int (rheight itemRect)) (real childCount);
               y = dadd (real_of_int (rtop itemRect)) yInc
           in case firstBaseLine (children item) of
                Inl e \<Rightarrow> Inl e
              | Inr baseline \<Rightarrow>
                  Inr (lineLoop P pdfSettings itemRect baseline yInc (children item) y s))
        else if itemClass item = ''ocr_line'' \<and> \<not> uniformizeLineSpacing pdfSettings then
          (let baseline = baseLine item;
               y = real_of_int (rbottom itemRect + baseline)
           in Inr (fold (lineWordStep P pdfSettings y) (children item) s))
        else if itemClass item = ''ocr_graphic'' \<and> \<not> overlay pdfSettings then
          (let scaledItemRect =
                 mkQRect (real_of_int (rleft itemRect) * imgScale)
                   (real_of_int (rtop itemRect) * imgScale)
                   (real_of_int (rwidth itemRect) * imgScale)
                   (real_of_int (rheight itemRect) * imgScale)
           in Inr (drawImage P itemRect (getSelection scaledItemRect) pdfSettings s))
        else printEach P getSelection (children item) pdfSettings imgScale s)"
| "printEach P getSelection [] pdfSettings imgScale s = Inr s"
| "printEach P getSelection (c # cs) pdfSettings imgScale s =
     (case printChildren P getSelection c pdfSettings imgScale s of
        Inl e \<Rightarrow> Inl e
      | Inr s' \<Rightarrow> printEach P getSelection cs pdfSettings imgScale s')"
  by pat_completeness auto

lemma size_children: "size_list size (children item) < size item"
  by (cases item) simp

termination printChildren
  by (relation "measure (\<lambda>a. case a of
          Inl (P, g, item, r) \<Rightarrow> size item
        | Inr (P, g, cs, r) \<Rightarrow> size_list size cs)")
     (simp_all add: size_children)

declare printChildren.simps [simp del]

subsection \<open>Collaborators outside this file\<close>

text \<open>
  The image conversion and the encoders are Qt's, PoDoFo's and the fax encoder's; the
  font metrics are PoDoFo's and Qt's, as functions of the font size in force. They are
  parameters of the model.
\<close>

record Externals =
  convertedImage :: "QImage \<Rightarrow> Format \<Rightarrow> ConversionFlags \<Rightarrow> QImage"
  saveJpg :: "QImage \<Rightarrow> int \<Rightarrow> byte list"
  fromData :: "byte list \<Rightarrow> QImage"
  flateEncode :: "byte list \<Rightarrow> byte list"
  fax4Encode :: "byte list list \<Rightarrow> int \<Rightarrow> int \<Rightarrow> int \<Rightarrow> byte list"
  charWidth :: "real \<Rightarrow> char \<Rightarrow> real"
  stringWidth :: "real \<Rightarrow> string \<Rightarrow> real"
  qtAverageCharWidth :: "int \<Rightarrow> int"
  qtWidth :: "int \<Rightarrow> string \<Rightarrow> int"

text \<open>
  \<^verbatim>\<open>QImage::invertPixels\<close> on an image of less than 32 bits per pixel: every byte
  that holds pixels is complemented, the padding of a scan line is left alone.
\<close>

definition invertPixels :: "QImage \<Rightarrow> QImage" where
  "invertPixels img =
     (let bpl = nat ((iwidth img * depth (iformat img) + 7) div 8)
      in img\<lparr>scanLines := map (\<lambda>l. map NOT (take bpl l) @ drop bpl l) (scanLines img)\<rparr>)"

text \<open>The sample of pixel \<open>(x, y)\<close> of a one-bit image, most significant bit first.\<close>

definition monoSample :: "QImage \<Rightarrow> nat \<Rightarrow> nat \<Rightarrow> bool" where
  "monoSample img x y = bit (scanLines img ! y ! (x div 8)) (7 - x mod 8)"

subsection \<open>The preview backend, \<^verbatim>\<open>QPainterPDFPainter\<close>\<close>

datatype QPainterOp = QSetFont int | QDrawText int int string | QDrawImage QRect QImage

record QPainterState =
  q_ops :: "QPainterOp list"
  q_pointSize :: int
  m_curFontSize :: int

definition QPainter_setFontSize :: "real \<Rightarrow> QPainterState \<Rightarrow> QPainterState" where
  "QPainter_setFontSize pointSize s =
     (if pointSize \<noteq> real_of_int (m_curFontSize s)
      then s\<lparr>q_ops := q_ops s @ [QSetFont (to_int pointSize)],
             q_pointSize := to_int pointSize,
             m_curFontSize := to_int pointSize\<rparr>
      else s)"

definition QPainter_drawText :: "real \<Rightarrow> real \<Rightarrow> string \<Rightarrow> QPainterState \<Rightarrow> QPainterState" where
  "QPainter_drawText x y t s = s\<lparr>q_ops := q_ops s @ [QDrawText (to_int x) (to_int y) t]\<rparr>"

definition QPainter_image :: "Externals \<Rightarrow> QImage \<Rightarrow> PDFSettings \<Rightarrow> QImage" where
  "QPainter_image E im settings =
     (let img = convertedImage E im (colorFormat settings) (conversionFlags settings)
      in if compression settings = CompressJpeg
         then fromData E (saveJpg E img (compressionQuality settings))
         else img)"

definition QPainter_drawImage ::
  "Externals \<Rightarrow> QRect \<Rightarrow> QImage \<Rightarrow> PDFSettings \<Rightarrow> QPainterState \<Rightarrow> QPainterState" where
  "QPainter_drawImage E r im settings s =
     s\<lparr>q_ops := q_ops s @ [QDrawImage r (QPainter_image E im settings)]\<rparr>"

definition QPainterPDFPainter :: "Externals \<Rightarrow> QPainterState PDFPainter" where
  "QPainterPDFPainter E =
     \<lparr>setFontSize = QPainter_setFontSize,
      drawText = QPainter_drawText,
      drawImage = QPainter_drawImage E,
      getAverageCharWidth = (\<lambda>s. real_of_int (qtAverageCharWidth E (q_pointSize s))),
      getTextWidth = (\<lambda>t s. real_of_int (qtWidth E (q_pointSize s) t))\<rparr>"

subsection \<open>The file backend, \<^verbatim>\<open>PoDoFoPDFPainter\<close>\<close>

datatype ColorSpace = DeviceRGB | DeviceGray

datatype Filter = FlateDecode | DCTDecode | CCITTFaxDecode

record DecodeParms =
  Columns :: int
  Rows :: int
  K :: int

record PdfImage =
  colorSpace :: ColorSpace
  imageWidth :: int
  imageHeight :: int
  bitsPerComponent :: int
  imageFilter :: Filter
  decodeParms :: "DecodeParms option"
  streamData :: "byte list"

text \<open>
  The operators the PoDoFo painter writes to the page: text at a position with the font
  size in force, and an image at a position with its two scale factors.
\<close>

datatype PdfOp = PdfDrawText real real string real | PdfDrawImage real real PdfImage real real

record PoDoFoState =
  p_ops :: "PdfOp list"
  p_fontSize :: real
  m_scaleFactor :: real
  m_pageHeight :: real

definition PoDoFo_setFontSize :: "real \<Rightarrow> PoDoFoState \<Rightarrow> PoDoFoState" where
  "PoDoFo_setFontSize pointSize s = s\<lparr>p_fontSize := pointSize\<rparr>"

definition PoDoFo_drawText :: "real \<Rightarrow> real \<Rightarrow> string \<Rightarrow> PoDoFoState \<Rightarrow> PoDoFoState" where
  "PoDoFo_drawText x y t s =
     s\<lparr>p_ops := p_ops s @
        [PdfDrawText (x * m_scaleFactor s) (m_pageHeight s - y * m_scaleFactor s) t (p_fontSize s)]\<rparr>"

text \<open>The image handed to the encoders: converted, and inverted when monochrome.\<close>

definition PoDoFo_image :: "Externals \<Rightarrow> QImage \<Rightarrow> PDFSettings \<Rightarrow> QImage" where
  "PoDoFo_image E im settings =
     (let img = convertedImage E im (colorFormat settings) (conversionFlags settings)
      in if colorFormat settings = Format_Mono then invertPixels img else img)"

definition PoDoFo_pdfImage :: "Externals \<Rightarrow> QImage \<Rightarrow> PDFSettings \<Rightarrow> PdfImage" where
  "PoDoFo_pdfImage E im settings =
     (let img = PoDoFo_image E im settings;
          cs = (if iformat img = Format_RGB888 then DeviceRGB else DeviceGray);
          width = iwidth img;
          height = iheight img;
          sampleSize = sampleSize (colorFormat settings)
      in case compression settings of
           CompressZip \<Rightarrow>
             \<lparr>colorSpace = cs, imageWidth = width, imageHeight = height,
              bitsPerComponent = sampleSize, imageFilter = FlateDecode, decodeParms = None,
              streamData = flateEncode E (packRows (colorFormat settings) img)\<rparr>
         | CompressJpeg \<Rightarrow>
             \<lparr>colorSpace = cs, imageWidth = width, imageHeight = height,
              bitsPerComponent = sampleSize, imageFilter = DCTDecode, decodeParms = None,
              streamData = saveJpg E img (compressionQuality settings)\<rparr>
         | CompressFax4 \<Rightarrow>
             \<lparr>colorSpace = cs, imageWidth = width, imageHeight = height,
              bitsPerComponent = sampleSize, imageFilter = CCITTFaxDecode,
              decodeParms = Some \<lparr>Columns = iwidth img, Rows = iheight img, K = - 1\<rparr>,
              streamData = fax4Encode E (scanLines img) (iwidth img) (iheight img)
                 (qt_bytesPerLine (iformat img) (iwidth img))\<rparr>)"

definition PoDoFo_drawImage ::
  "Externals \<Rightarrow> QRect \<Rightarrow> QImage \<Rightarrow> PDFSettings \<Rightarrow> PoDoFoState \<Rightarrow> PoDoFoState" where
  "PoDoFo_drawImage E r im settings s =
     s\<lparr>p_ops := p_ops s @
        [PdfDrawImage (real_of_int (rx r) * m_scaleFactor s)
           (m_pageHeight s - real_of_int (ry r + rheight r) * m_scaleFactor s)
           (PoDoFo_pdfImage E im settings)
           (m_scaleFactor s * real_of_int (rwidth r) / real_of_int (iwidth im))
           (m_scaleFactor s * real_of_int (rheight r) / real_of_int (iheight im))]\<rparr>"

definition PoDoFoPDFPainter :: "Externals \<Rightarrow> PoDoFoState PDFPainter" where
  "PoDoFoPDFPainter E =
     \<lparr>setFontSize = PoDoFo_setFontSize,
      drawText = PoDoFo_drawText,
      drawImage = PoDoFo_drawImage E,
      getAverageCharWidth = (\<lambda>s. charWidth E (p_fontSize s) CHR ''x'' / m_scaleFactor s),
      getTextWidth = (\<lambda>t s. stringWidth E (p_fontSize s) t / m_scaleFactor s)\<rparr>"

subsection \<open>\<^verbatim>\<open>HOCRPdfExporter::run\<close>, from the page loop on\<close>

text \<open>
  What the run reads from the dialog and from the application: the settings, the output
  resolution, the dialog font's point size, whether to open the result, whether a
  page's source can be added, the rasterizer, and whether closing the document throws
  (\<open>Some\<close> the error's message).
\<close>

record RunInput =
  pdfSettings :: PDFSettings
  outputDpi :: int
  fontPointSize :: int
  openOutputPdf :: bool
  addSource :: "string \<Rightarrow> bool"
  getSelection :: "HOCRPage \<Rightarrow> int \<Rightarrow> QRect \<Rightarrow> QImage"
  closeError :: "string option"

record PdfPage =
  pageWidth :: real
  pageHeight :: real
  pageContent :: "PdfOp list"

record Export =
  document :: "PdfPage list"
  docFontSize :: real
  failed :: "string list"

definition docScale :: "HOCRPage \<Rightarrow> real" where
  "docScale page = 72 / real_of_int (resolution page)"

text \<open>
  The painter \<^verbatim>\<open>run\<close> constructs for a page: the scale factor is \<open>docScale\<close>, the page
  height is read back from the page just created.
\<close>

definition newPoDoFoPainter :: "PdfPage \<Rightarrow> real \<Rightarrow> real \<Rightarrow> PoDoFoState" where
  "newPoDoFoPainter pdfpage fontSize0 scaleFactor =
     \<lparr>p_ops = [], p_fontSize = fontSize0, m_scaleFactor = scaleFactor,
      m_pageHeight = pageHeight pdfpage\<rparr>"

definition createPage :: "HOCRPage \<Rightarrow> PdfPage" where
  "createPage page =
     \<lparr>pageWidth = real_of_int (rwidth (bbox (pageItem page))) * docScale page,
      pageHeight = real_of_int (rheight (bbox (pageItem page))) * docScale page,
      pageContent = []\<rparr>"

definition renderPage ::
  "Externals \<Rightarrow> RunInput \<Rightarrow> real \<Rightarrow> HOCRPage \<Rightarrow> fault + PdfPage \<times> real" where
  "renderPage E inp fontSize0 page =
     (let bbox = bbox (pageItem page);
          sourceDpi = resolution page;
          imgScale = real_of_int (outputDpi inp) / real_of_int sourceDpi;
          pdfpage = createPage page;
          pdfprinter = newPoDoFoPainter pdfpage fontSize0 (docScale page);
          s1 = PoDoFo_setFontSize (real_of_int (fontPointSize inp)) pdfprinter
      in case printChildren (PoDoFoPDFPainter E) (getSelection inp page (outputDpi inp))
                (pageItem page) (pdfSettings inp) imgScale s1 of
           Inl e \<Rightarrow> Inl e
         | Inr s2 \<Rightarrow>
             let s3 = (if overlay (pdfSettings inp)
                       then PoDoFo_drawImage E bbox
                              (getSelection inp page (outputDpi inp)
                                 (mkQRect (imgScale * real_of_int (rleft bbox))
                                    (imgScale * real_of_int (rtop bbox))
                                    (imgScale * real_of_int (rwidth bbox))
                                    (imgScale * real_of_int (rheight bbox))))
                              (pdfSettings inp) s2
                       else s2)
             in Inr (pdfpage\<lparr>pageContent := p_ops s3\<rparr>, p_fontSize s3))"

text \<open>
  The page loop (lines 365 to 393). The font object is shared by the pages, so the
  font size a page starts with is the one the page before left; each page sets it
  from the dialog font before anything is drawn. \<open>bbox\<close> in \<open>renderPage\<close> is the
  page's bounding box, as in the source.
\<close>

fun pageLoop :: "Externals \<Rightarrow> RunInput \<Rightarrow> HOCRPage list \<Rightarrow> Export \<Rightarrow> fault + Export" where
  "pageLoop E inp [] ex = Inr ex"
| "pageLoop E inp (page # pages) ex =
     (if \<not> isEnabled (pageItem page) then pageLoop E inp pages ex
      else if addSource inp (sourceFile page) then
        (case renderPage E inp (docFontSize ex) page of
           Inl e \<Rightarrow> Inl e
         | Inr (pdfpage, fs) \<Rightarrow>
             pageLoop E inp pages (ex\<lparr>document := document ex @ [pdfpage], docFontSize := fs\<rparr>))
      else pageLoop E inp pages (ex\<lparr>failed := failed ex @ [title page]\<rparr>))"

datatype Effect =
  WarnNotRendered "string list"
  | DocumentClose
  | WarnExportFailed string
  | OpenUrl

record RunResult =
  returned :: bool
  written :: "PdfPage list"
  effects :: "Effect list"

definition run :: "Externals \<Rightarrow> RunInput \<Rightarrow> HOCRPage list \<Rightarrow> fault + RunResult" where
  "run E inp pages =
     (case pageLoop E inp pages \<lparr>document = [], docFontSize = 12, failed = []\<rparr> of
        Inl e \<Rightarrow> Inl e
      | Inr ex \<Rightarrow>
          let warn = (if failed ex \<noteq> [] then [WarnNotRendered (failed ex)] else []);
              pdfCanBeOpened = (closeError inp = None);
              closing = DocumentClose #
                 (case closeError inp of None \<Rightarrow> [] | Some msg \<Rightarrow> [WarnExportFailed msg]);
              opening = (if openOutputPdf inp \<and> pdfCanBeOpened then [OpenUrl] else [])
          in Inr \<lparr>returned = pdfCanBeOpened, written = document ex,
                  effects = warn @ closing @ opening\<rparr>)"

subsection \<open>Notions used to state the properties\<close>

definition pageSize :: "PdfPage \<Rightarrow> real \<times> real" where
  "pageSize pg = (pageWidth pg, pageHeight pg)"

text \<open>
  What the output page of an hOCR page has to be: its size is the page's bounding box
  scaled by \<open>72 / sourceDPI\<close>; its content is what the layout walk draws on a fresh file
  backend of that scale and height, set to the dialog font's size, followed in overlay
  mode by the image of the whole page.
\<close>

definition rendersAs :: "Externals \<Rightarrow> RunInput \<Rightarrow> HOCRPage \<Rightarrow> PdfPage \<Rightarrow> bool" where
  "rendersAs E inp page pg =
     (let r = bbox (pageItem page);
          scale = 72 / real_of_int (resolution page);
          imgScale = real_of_int (outputDpi inp) / real_of_int (resolution page);
          w = real_of_int (rwidth r) * scale;
          h = real_of_int (rheight r) * scale
      in case printChildren (PoDoFoPDFPainter E) (getSelection inp page (outputDpi inp))
                (pageItem page) (pdfSettings inp) imgScale
                \<lparr>p_ops = [], p_fontSize = real_of_int (fontPointSize inp),
                 m_scaleFactor = scale, m_pageHeight = h\<rparr> of
           Inl e \<Rightarrow> False
         | Inr s \<Rightarrow>
             pg = \<lparr>pageWidth = w, pageHeight = h,
                   pageContent = p_ops
                     (if overlay (pdfSettings inp)
                      then drawImage (PoDoFoPDFPainter E) r
                             (getSelection inp page (outputDpi inp)
                                (mkQRect (imgScale * real_of_int (rleft r))
                                   (imgScale * real_of_int (rtop r))
                                   (imgScale * real_of_int (rwidth r))
                                   (imgScale * real_of_int (rheight r))))
                             (pdfSettings inp) s
                      else s)\<rparr>)"

text \<open>The enabled pages whose source can be added, and those whose source cannot.\<close>

definition renderedPages :: "RunInput \<Rightarrow> HOCRPage list \<Rightarrow> HOCRPage list" where
  "renderedPages inp pages =
     filter (\<lambda>p. isEnabled (pageItem p) \<and> addSource inp (sourceFile p)) pages"

definition failedPages :: "RunInput \<Rightarrow> HOCRPage list \<Rightarrow> HOCRPage list" where
  "failedPages inp pages =
     filter (\<lambda>p. isEnabled (pageItem p) \<and> \<not> addSource inp (sourceFile p)) pages"

section \<open>Example inputs\<close>

text \<open>A one-bit image of 10 by 2 pixels; its scan lines are 4 bytes long.\<close>

definition zip_example :: QImage where
  "zip_example = \<lparr>iformat = Format_Mono, iwidth = 10, iheight = 2,
     scanLines = [[0xA5, 0x40, 0, 0], [0x3C, 0x80, 0, 0]]\<rparr>"

text \<open>
  Settings with every option off, an image of no pixels for the rasterizer, and font
  metrics of 5 units per character.
\<close>

definition ex_settings :: PDFSettings where
  "ex_settings = \<lparr>colorFormat = Format_RGB888, conversionFlags = AutoColor,
     compression = CompressZip, compressionQuality = 90, useDetectedFontSizes = False,
     uniformizeLineSpacing = False, preserveSpaceWidth = 4, overlay = False,
     detectedFontScaling = 1\<rparr>"

definition ex_uniform :: PDFSettings where
  "ex_uniform = ex_settings\<lparr>uniformizeLineSpacing := True\<rparr>"

definition ex_getSelection :: "QRect \<Rightarrow> QImage" where
  "ex_getSelection r = \<lparr>iformat = Format_RGB888, iwidth = 0, iheight = 0, scanLines = []\<rparr>"

definition ex_recorder :: "Call list PDFPainter" where
  "ex_recorder = recorder (\<lambda>s. 5) (\<lambda>t s. 5 * real (length t))"

text \<open>An enabled line that holds one disabled word.\<close>

definition ex_disabled_word :: HOCRItem where
  "ex_disabled_word =
     HOCRItem False ''ocrx_word'' \<lparr>rx = 100, ry = 50, rwidth = 60, rheight = 20\<rparr> 0 12 ''Hello'' []"

definition ex_line :: HOCRItem where
  "ex_line =
     HOCRItem True ''ocr_line'' \<lparr>rx = 100, ry = 50, rwidth = 400, rheight = 20\<rparr> 0 0 [] [ex_disabled_word]"

text \<open>
  A paragraph of two lines, 40 pixels high with its top at 10; the first line's
  baseline is -3, the second line's is -7. The second line holds an enabled word, a
  disabled one, and an enabled one 200 pixels further right.
\<close>

definition ex_word :: "bool \<Rightarrow> int \<Rightarrow> string \<Rightarrow> HOCRItem" where
  "ex_word en x t = HOCRItem en ''ocrx_word'' \<lparr>rx = x, ry = 10, rwidth = 30, rheight = 20\<rparr> 0 12 t []"

definition ex_par :: HOCRItem where
  "ex_par =
     HOCRItem True ''ocr_par'' \<lparr>rx = 20, ry = 10, rwidth = 400, rheight = 40\<rparr> 0 0 []
       [HOCRItem True ''ocr_line'' \<lparr>rx = 20, ry = 10, rwidth = 400, rheight = 20\<rparr> (- 3) 0 []
          [ex_word True 20 ''a''],
        HOCRItem True ''ocr_line'' \<lparr>rx = 20, ry = 30, rwidth = 400, rheight = 20\<rparr> (- 7) 0 []
          [ex_word True 20 ''b'', ex_word False 60 ''c'', ex_word True 260 ''d'']]"

text \<open>A paragraph of three lines of one word each, 40 pixels high with its top at 10.\<close>

definition ex_line_of :: "string \<Rightarrow> HOCRItem" where
  "ex_line_of t =
     HOCRItem True ''ocr_line'' \<lparr>rx = 20, ry = 10, rwidth = 400, rheight = 13\<rparr> 0 0 []
       [ex_word True 20 t]"

definition ex_par3 :: HOCRItem where
  "ex_par3 =
     HOCRItem True ''ocr_par'' \<lparr>rx = 20, ry = 10, rwidth = 400, rheight = 40\<rparr> 0 0 []
       [ex_line_of ''a'', ex_line_of ''b'', ex_line_of ''c'']"

definition ex_empty_par :: HOCRItem where
  "ex_empty_par =
     HOCRItem True ''ocr_par'' \<lparr>rx = 20, ry = 10, rwidth = 400, rheight = 40\<rparr> 0 0 [] []"

text \<open>An enabled paragraph whose only line is disabled; the line holds an enabled word.\<close>

definition ex_par_disabled_line :: HOCRItem where
  "ex_par_disabled_line =
     HOCRItem True ''ocr_par'' \<lparr>rx = 20, ry = 10, rwidth = 400, rheight = 40\<rparr> 0 0 []
       [HOCRItem False ''ocr_line'' \<lparr>rx = 20, ry = 10, rwidth = 400, rheight = 40\<rparr> (- 3) 0 []
          [ex_word True 20 ''z'']]"

text \<open>
  A document of two pages of 2550 by 3300 pixels at 300 DPI. The first holds a
  paragraph with one line with the words Hello at x = 100 and World at x = 400; the
  source of the second cannot be added. A third page is disabled.
\<close>

definition ex_externals :: Externals where
  "ex_externals = \<lparr>convertedImage = (\<lambda>im f c. im), saveJpg = (\<lambda>im q. []),
     fromData = (\<lambda>d. ex_getSelection \<lparr>rx = 0, ry = 0, rwidth = 0, rheight = 0\<rparr>),
     flateEncode = (\<lambda>d. d), fax4Encode = (\<lambda>d w h b. []),
     charWidth = (\<lambda>size c. size / 2), stringWidth = (\<lambda>size t. size / 2 * real (length t)),
     qtAverageCharWidth = (\<lambda>size. 5), qtWidth = (\<lambda>size t. 5 * int (length t))\<rparr>"

definition ex_hello_item :: HOCRItem where
  "ex_hello_item =
     HOCRItem True ''ocr_page'' \<lparr>rx = 0, ry = 0, rwidth = 2550, rheight = 3300\<rparr> 0 0 []
       [HOCRItem True ''ocr_par'' \<lparr>rx = 100, ry = 200, rwidth = 600, rheight = 50\<rparr> 0 0 []
          [HOCRItem True ''ocr_line'' \<lparr>rx = 100, ry = 200, rwidth = 600, rheight = 50\<rparr> 0 0 []
             [HOCRItem True ''ocrx_word'' \<lparr>rx = 100, ry = 200, rwidth = 250, rheight = 50\<rparr>
                0 12 ''Hello'' [],
              HOCRItem True ''ocrx_word'' \<lparr>rx = 400, ry = 200, rwidth = 250, rheight = 50\<rparr>
                0 12 ''World'' []]]]"

definition ex_page1 :: HOCRPage where
  "ex_page1 = \<lparr>pageItem = ex_hello_item, sourceFile = ''scan1.png'', resolution = 300,
     title = ''Page 1''\<rparr>"

definition ex_page2 :: HOCRPage where
  "ex_page2 = \<lparr>pageItem = ex_hello_item, sourceFile = ''missing.png'', resolution = 300,
     title = ''Page 2''\<rparr>"

definition ex_page3 :: HOCRPage where
  "ex_page3 =
     \<lparr>pageItem = HOCRItem False ''ocr_page'' \<lparr>rx = 0, ry = 0, rwidth = 2550, rheight = 3300\<rparr> 0 0 [] [],
      sourceFile = ''scan1.png'', resolution = 300, title = ''Page 3''\<rparr>"

definition ex_input :: RunInput where
  "ex_input = \<lparr>pdfSettings = ex_settings, outputDpi = 300, fontPointSize = 12,
     openOutputPdf = False, addSource = (\<lambda>f. f = ''scan1.png''),
     getSelection = (\<lambda>page dpi. ex_getSelection), closeError = None\<rparr>"

text \<open>Monochrome settings, for each compression scheme.\<close>

definition ex_mono :: "Compression \<Rightarrow> PDFSettings" where
  "ex_mono c = ex_settings\<lparr>colorFormat := Format_Mono, conversionFlags := ThresholdDither,
     compression := c\<rparr>"

section \<open>Properties\<close>

subsection \<open>Row packing\<close>

lemma c_div_nonneg: "0 \<le> a \<Longrightarrow> 0 < b \<Longrightarrow> c_div a b = a div b"
  by (cases "a = 0") (simp_all add: c_div_def)

lemma c_mod_nonneg: "0 \<le> a \<Longrightarrow> 0 < b \<Longrightarrow> c_mod a b = a mod b"
  by (simp add: c_mod_def c_div_nonneg minus_mult_div_eq_mod)

lemma ceiling_div8: "\<lceil>real_of_int n / 8\<rceil> = n div 8 + (if n mod 8 \<noteq> 0 then 1 else 0)"
proof -
  have "\<lceil>real_of_int n / real_of_int 8\<rceil> = - ((- n) div 8)"
    by (simp only: ceiling_divide_eq_div)
  also have "\<dots> = n div 8 + (if n mod 8 \<noteq> 0 then 1 else 0)"
    by (simp add: zdiv_zminus1_eq_if)
  finally show ?thesis by simp
qed

lemma bytesPerLine_RGB888: "0 \<le> w \<Longrightarrow> bytesPerLine Format_RGB888 w = 3 * w"
  by (simp add: bytesPerLine_def numComponents_def sampleSize_def c_div_nonneg c_mod_nonneg
      bool_to_int_def)

lemma bytesPerLine_Grayscale8: "0 \<le> w \<Longrightarrow> bytesPerLine Format_Grayscale8 w = w"
  by (simp add: bytesPerLine_def numComponents_def sampleSize_def c_div_nonneg c_mod_nonneg
      bool_to_int_def)

lemma bytesPerLine_Mono:
  "0 \<le> w \<Longrightarrow> bytesPerLine Format_Mono w = w div 8 + (if w mod 8 \<noteq> 0 then 1 else 0)"
  by (simp add: bytesPerLine_def numComponents_def sampleSize_def c_div_nonneg c_mod_nonneg
      bool_to_int_def)

lemma bytesPerLine_ceiling:
  assumes "0 \<le> w" and "cf \<in> {Format_RGB888, Format_Grayscale8, Format_Mono}"
  shows "bytesPerLine cf w = \<lceil>real_of_int (w * sampleSize cf * numComponents cf) / 8\<rceil>"
proof -
  from assms(2) consider "cf = Format_RGB888" | "cf = Format_Grayscale8" | "cf = Format_Mono"
    by auto
  then show ?thesis
  proof cases
    case 1
    have "real_of_int (w * 8 * 3) / 8 = real_of_int (3 * w)"
      by simp
    then have "\<lceil>real_of_int (w * 8 * 3) / 8\<rceil> = 3 * w"
      by (simp only: ceiling_of_int)
    with 1 assms(1) show ?thesis
      by (simp add: bytesPerLine_RGB888 sampleSize_def numComponents_def)
  next
    case 2
    have "real_of_int (w * 8 * 1) / 8 = real_of_int w"
      by simp
    then have "\<lceil>real_of_int (w * 8 * 1) / 8\<rceil> = w"
      by (simp only: ceiling_of_int)
    with 2 assms(1) show ?thesis
      by (simp add: bytesPerLine_Grayscale8 sampleSize_def numComponents_def)
  next
    case 3
    with assms(1) show ?thesis
      by (simp add: bytesPerLine_Mono sampleSize_def numComponents_def ceiling_div8)
  qed
qed

lemma memcpy_length:
  "off + n \<le> length dst \<Longrightarrow> n \<le> length src \<Longrightarrow> length (memcpy dst off src n) = length dst"
  by (simp add: memcpy_def)

lemma packLoop_concat:
  "\<forall>l \<in> set ls. bpl \<le> length l \<Longrightarrow> length buf = (y + length ls) * bpl \<Longrightarrow>
   packLoop bpl ls y buf = take (y * bpl) buf @ concat (map (take bpl) ls)"
proof (induction ls arbitrary: y buf)
  case Nil
  then show ?case by simp
next
  case (Cons l ls)
  let ?buf = "memcpy buf (y * bpl) l bpl"
  from Cons.prems have l: "bpl \<le> length l" and len: "length buf = (Suc y + length ls) * bpl"
    by simp_all
  have fits: "y * bpl + bpl \<le> length buf"
    using len by (simp add: algebra_simps)
  have len': "length ?buf = (Suc y + length ls) * bpl"
    using l len fits by (simp add: memcpy_length)
  have "packLoop bpl ls (Suc y) ?buf = take (Suc y * bpl) ?buf @ concat (map (take bpl) ls)"
    using Cons.prems len' by (intro Cons.IH) simp_all
  moreover have "take (Suc y * bpl) ?buf = take (y * bpl) buf @ take bpl l"
  proof -
    have a: "length (take (y * bpl) buf) = y * bpl"
      using fits by simp
    have b: "length (take bpl l) = bpl"
      using l by simp
    have "take (y * bpl + bpl) ((take (y * bpl) buf @ take bpl l) @ drop (y * bpl + bpl) buf)
        = take (y * bpl) buf @ take bpl l"
      using a b by (subst take_append) simp
    then show ?thesis
      by (simp add: memcpy_def add.commute)
  qed
  ultimately show ?case by simp
qed

lemma concat_rows_length:
  "\<forall>l \<in> set ls. bpl \<le> length l \<Longrightarrow> length (concat (map (take bpl) ls)) = length ls * bpl"
  by (induction ls) simp_all

lemma concat_rows_nth:
  "\<forall>l \<in> set ls. bpl \<le> length l \<Longrightarrow> y < length ls \<Longrightarrow>
   take bpl (drop (y * bpl) (concat (map (take bpl) ls))) = take bpl (ls ! y)"
proof (induction ls arbitrary: y)
  case Nil
  then show ?case by simp
next
  case (Cons l ls)
  then show ?case
    by (cases y) simp_all
qed

lemma qt_bytesPerLine_ge:
  assumes "0 \<le> w" and "cf \<in> {Format_RGB888, Format_Grayscale8, Format_Mono}"
  shows "bytesPerLine cf w \<le> qt_bytesPerLine cf w"
proof -
  have "3 * w \<le> (w * 24 + 31) div 32 * 4" "w \<le> (w * 8 + 31) div 32 * 4"
    "w div 8 + (if w mod 8 \<noteq> 0 then 1 else 0) \<le> (w + 31) div 32 * 4"
    by presburger+
  with assms show ?thesis
    by (auto simp: bytesPerLine_RGB888 bytesPerLine_Grayscale8 bytesPerLine_Mono
      qt_bytesPerLine_def depth_def simp del: One_nat_def)
qed


text \<open>
  C9. In the Zip branch, for every width \<open>w \<ge> 0\<close> and each of the three colour formats
  (RGB888: 3 components of 8 bits; Grayscale8: 1 component of 8 bits; Mono: 1 component
  of 1 bit), the number of bytes copied per row equals
  \<open>\<lceil>w * bitsPerSample * channels / 8\<rceil>\<close>; and for an image of that format and width the
  packed buffer has exactly that many bytes for each of its rows, row \<open>y\<close> of the buffer
  being the first bytes of scan line \<open>y\<close>, with nothing between two rows.
\<close>

theorem zip_rows_tightly_packed:
  assumes "0 \<le> w" and "cf \<in> {Format_RGB888, Format_Grayscale8, Format_Mono}"
  shows "numComponents Format_RGB888 = 3 \<and> sampleSize Format_RGB888 = 8 \<and>
         numComponents Format_Grayscale8 = 1 \<and> sampleSize Format_Grayscale8 = 8 \<and>
         numComponents Format_Mono = 1 \<and> sampleSize Format_Mono = 1 \<and>
         bytesPerLine cf w = \<lceil>real_of_int (w * sampleSize cf * numComponents cf) / 8\<rceil> \<and>
         (\<forall>img. image_ok img \<and> iformat img = cf \<and> iwidth img = w \<longrightarrow>
            length (packRows cf img) = nat (bytesPerLine cf w) * nat (iheight img) \<and>
            (\<forall>y < nat (iheight img).
               take (nat (bytesPerLine cf w)) (drop (y * nat (bytesPerLine cf w)) (packRows cf img))
               = take (nat (bytesPerLine cf w)) (scanLines img ! y)))"
proof -
  let ?bpl = "bytesPerLine cf w"
  have bpl0: "0 \<le> ?bpl"
    using assms
    by (auto simp: bytesPerLine_RGB888 bytesPerLine_Grayscale8 bytesPerLine_Mono
        intro: pos_imp_zdiv_nonneg_iff [THEN iffD2])
  have rows: "length (packRows cf img) = nat ?bpl * nat (iheight img) \<and>
      (\<forall>y < nat (iheight img).
         take (nat ?bpl) (drop (y * nat ?bpl) (packRows cf img)) = take (nat ?bpl) (scanLines img ! y))"
    if ok: "image_ok img" and f: "iformat img = cf" and wd: "iwidth img = w" for img
  proof -
    have h0: "0 \<le> iheight img" and n: "int (length (scanLines img)) = iheight img"
      using ok by (simp_all add: image_ok_def)
    have long: "\<forall>l \<in> set (scanLines img). nat ?bpl \<le> length l"
    proof
      fix l assume "l \<in> set (scanLines img)"
      with ok f wd have "int (length l) = qt_bytesPerLine cf w"
        by (simp add: image_ok_def list_all_iff)
      with qt_bytesPerLine_ge [OF assms] show "nat ?bpl \<le> length l"
        by linarith
    qed
    have n': "length (scanLines img) = nat (iheight img)"
      using n by linarith
    have size: "nat (?bpl * iheight img) = length (scanLines img) * nat ?bpl"
      using bpl0 h0 n' by (simp add: nat_mult_distrib mult.commute)
    have "packRows cf img = concat (map (take (nat ?bpl)) (scanLines img))"
      unfolding packRows_def Let_def wd
      by (subst packLoop_concat [OF long]) (simp_all add: size)
    then show ?thesis
      using concat_rows_length [OF long] concat_rows_nth [OF long] n'
      by (simp add: mult.commute)
  qed
  show ?thesis
    using bytesPerLine_ceiling [OF assms] rows
    by (simp add: numComponents_def sampleSize_def)
qed

theorem zip_rows_tightly_packed_witness:
  "(0::int) \<le> 10 \<and> image_ok zip_example \<and> bytesPerLine Format_Mono 10 = 2 \<and>
   \<lceil>real_of_int (10 * sampleSize Format_Mono * numComponents Format_Mono) / 8\<rceil> = 2 \<and>
   packRows Format_Mono zip_example = [0xA5, 0x40, 0x3C, 0x80] \<and>
   length (packRows Format_Mono zip_example) = nat (bytesPerLine Format_Mono 10) * nat (iheight zip_example)"
proof -
  have ok: "image_ok zip_example"
    by (simp add: image_ok_def zip_example_def qt_bytesPerLine_def depth_def)
  have bpl: "bytesPerLine Format_Mono 10 = 2"
    by (simp add: bytesPerLine_Mono)
  have pack: "packRows Format_Mono zip_example = [0xA5, 0x40, 0x3C, 0x80]"
    by (simp add: packRows_def bpl zip_example_def memcpy_def numeral_2_eq_2 eval_nat_numeral)
  from zip_rows_tightly_packed [of 10 Format_Mono] ok bpl pack show ?thesis
    by (simp add: zip_example_def)
qed

subsection \<open>Rounding to a double\<close>

text \<open>
  \<open>binade\<close> is the binary exponent, so \<open>double_round\<close> leaves a significand of 53 bits;
  the rounded value is within half a unit in the last place of the exact one.
\<close>

lemma binade_bounds:
  assumes "0 < a"
  shows "2 powi binade a \<le> a \<and> a < 2 powi (binade a + 1)"
proof (cases "1 \<le> a")
  case True
  let ?n = "nat \<lfloor>a\<rfloor>"
  let ?l = "floorlog 2 ?n"
  have n: "0 < ?n" using True by simp
  from floorlog_bounds [of ?n 2] n have b: "2 ^ (?l - 1) \<le> ?n" "?n < 2 ^ ?l"
    by simp_all
  have l: "0 < ?l" using n by (simp add: floorlog_def)
  have fn: "real ?n = real_of_int \<lfloor>a\<rfloor>"
    using True by simp
  have na: "real ?n \<le> a" "a < real ?n + 1"
    unfolding fn by linarith+
  have up: "real ?n + 1 \<le> 2 ^ ?l"
    using b(2) by (metis Suc_leI of_nat_Suc of_nat_le_iff of_nat_numeral of_nat_power add.commute)
  have lo: "(2::real) ^ (?l - 1) \<le> real ?n"
    using b(1) by (metis of_nat_le_iff of_nat_numeral of_nat_power)
  have e: "binade a = int ?l - 1" using True by (simp add: binade_def)
  have p1: "(2::real) powi (int ?l - 1) = 2 ^ (?l - 1)"
    using l by (simp add: power_int_def nat_diff_distrib')
  have p2: "(2::real) powi (int ?l - 1 + 1) = 2 ^ ?l"
    by (simp add: power_int_def)
  have "(2::real) ^ (?l - 1) \<le> a" using lo na(1) by linarith
  moreover have "a < 2 ^ ?l" using up na(2) by linarith
  ultimately show ?thesis
    unfolding e p1 p2 by blast
next
  case False
  let ?z = "1 / a"
  let ?m = "nat (\<lceil>?z\<rceil> - 1)"
  let ?l = "floorlog 2 ?m"
  from False assms have z: "1 < ?z" by simp
  then have c: "2 \<le> \<lceil>?z\<rceil>" by linarith
  then have m: "0 < ?m" by simp
  from floorlog_bounds [of ?m 2] m have b: "2 ^ (?l - 1) \<le> ?m" "?m < 2 ^ ?l"
    by simp_all
  have l: "0 < ?l" using m by (simp add: floorlog_def)
  from c have "0 \<le> \<lceil>?z\<rceil> - 1"
    by linarith
  then have "real ?m = real_of_int (\<lceil>?z\<rceil> - 1)"
    by (rule of_nat_nat)
  then have fm: "real ?m = real_of_int \<lceil>?z\<rceil> - 1"
    by (simp only: of_int_diff of_int_1)
  have mz: "real ?m < ?z" "?z \<le> real ?m + 1"
    unfolding fm by linarith+
  have up: "real ?m + 1 \<le> 2 ^ ?l"
    using b(2) by (metis Suc_leI of_nat_Suc of_nat_le_iff of_nat_numeral of_nat_power add.commute)
  have lo: "(2::real) ^ (?l - 1) \<le> real ?m"
    using b(1) by (metis of_nat_le_iff of_nat_numeral of_nat_power)
  have e: "binade a = - int ?l" using False by (simp add: binade_def)
  have p1: "(2::real) powi (- int ?l) = 1 / 2 ^ ?l"
    by (simp add: power_int_def field_simps)
  have p2: "(2::real) powi (- int ?l + 1) = 1 / 2 ^ (?l - 1)"
    using l by (simp add: power_int_def field_simps nat_diff_distrib')
  have "?z \<le> 2 ^ ?l" using mz(2) up by linarith
  then have "1 / 2 ^ ?l \<le> a"
    using assms by (simp add: field_simps)
  moreover have "2 ^ (?l - 1) < ?z" using lo mz(1) by linarith
  then have "a < 1 / 2 ^ (?l - 1)"
    using assms by (simp add: field_simps)
  ultimately show ?thesis
    unfolding e p1 p2 by blast
qed

lemma round_even_error: "\<bar>real_of_int (round_even q) - q\<bar> \<le> 1 / 2"
  by (simp add: round_even_def Let_def)

lemma double_round_error: "\<bar>double_round x - x\<bar> \<le> 2 powi (binade \<bar>x\<bar> - 53)"
proof (cases "x = 0")
  case True
  then show ?thesis by (simp add: double_round_def)
next
  case False
  let ?u = "(2::real) powi (binade \<bar>x\<bar> - 52)"
  let ?n = "round_even (\<bar>x\<bar> / ?u)"
  have u: "0 < ?u" by simp
  have "double_round x - x = sgn x * (real_of_int ?n * ?u - \<bar>x\<bar>)"
    using False by (simp add: double_round_def Let_def algebra_simps abs_mult_sgn mult_sgn_abs)
  then have "\<bar>double_round x - x\<bar> = \<bar>real_of_int ?n * ?u - \<bar>x\<bar>\<bar>"
    using False by (simp add: abs_mult abs_sgn_eq)
  also have "\<dots> = \<bar>real_of_int ?n - \<bar>x\<bar> / ?u\<bar> * ?u"
  proof -
    have "real_of_int ?n * ?u - \<bar>x\<bar> = (real_of_int ?n - \<bar>x\<bar> / ?u) * ?u"
      using u by (simp add: field_simps)
    then show ?thesis
      using u by (simp only: abs_mult abs_of_pos)
  qed
  also have "\<dots> \<le> (1 / 2) * ?u"
    using round_even_error [of "\<bar>x\<bar> / ?u"] u by (intro mult_right_mono) simp_all
  also have "\<dots> = 2 powi (binade \<bar>x\<bar> - 53)"
    by (simp add: power_int_diff)
  finally show ?thesis .
qed

subsection \<open>The layout walk\<close>

lemma wordStep_disabled: "\<not> isEnabled w \<Longrightarrow> wordStep P st ytext w c = c"
  by (cases c) (simp add: wordStep_def)

lemma wordLoop_append:
  "wordLoop P st ytext (ws1 @ ws2) c = wordLoop P st ytext ws2 (wordLoop P st ytext ws1 c)"
  by (simp add: wordLoop_def)

lemma wordLoop_filter: "wordLoop P st ytext ws c = wordLoop P st ytext (filter isEnabled ws) c"
  unfolding wordLoop_def
  by (induction ws arbitrary: c) (simp_all add: wordStep_disabled)

lemma wordStep_recorder:
  "isEnabled w \<Longrightarrow>
   snd (snd (wordStep (recorder avgw txtw) st ytext w (x, prev, lg))) =
     (let s1 = (if useDetectedFontSizes st
                then lg @ [SetFontSize (fontSize w * detectedFontScaling st)] else lg)
      in s1 @ [DrawText
           (real_of_int (if real_of_int (rx (bbox w) - prev)
                              > real_of_int (preserveSpaceWidth st) * avgw s1
                         then rx (bbox w) else x))
           ytext (itemText w)])"
  by (simp add: wordStep_def recorder_def Let_def)

lemma drawTexts_append: "drawTexts (as @ bs) = drawTexts as @ drawTexts bs"
  by (induction as rule: drawTexts.induct) simp_all

lemma wordStep_recorder_calls:
  "\<exists>cs xc pc. wordStep (recorder avgw txtw) st ytext w (x, prev, lg) = (xc, pc, lg @ cs) \<and>
     map (\<lambda>(x, y, t). (y, t)) (drawTexts cs) = (if isEnabled w then [(ytext, itemText w)] else [])"
  by (simp add: wordStep_def recorder_def Let_def drawTexts_append)

lemma wordLoop_recorder_calls:
  "\<exists>cs xc pc. wordLoop (recorder avgw txtw) st ytext ws (x, prev, lg) = (xc, pc, lg @ cs) \<and>
     map (\<lambda>(x, y, t). (y, t)) (drawTexts cs)
       = map (\<lambda>w. (ytext, itemText w)) (filter isEnabled ws)"
proof (induction ws arbitrary: x prev lg)
  case Nil
  then show ?case by (simp add: wordLoop_def)
next
  case (Cons w ws)
  obtain cs1 x1 p1 where
    1: "wordStep (recorder avgw txtw) st ytext w (x, prev, lg) = (x1, p1, lg @ cs1)" and
    d1: "map (\<lambda>(x, y, t). (y, t)) (drawTexts cs1) = (if isEnabled w then [(ytext, itemText w)] else [])"
    using wordStep_recorder_calls by blast
  obtain cs2 x2 p2 where
    2: "wordLoop (recorder avgw txtw) st ytext ws (x1, p1, lg @ cs1) = (x2, p2, (lg @ cs1) @ cs2)" and
    d2: "map (\<lambda>(x, y, t). (y, t)) (drawTexts cs2) = map (\<lambda>w. (ytext, itemText w)) (filter isEnabled ws)"
    using Cons.IH by blast
  have "wordLoop (recorder avgw txtw) st ytext (w # ws) (x, prev, lg) = (x2, p2, lg @ (cs1 @ cs2))"
    using 1 2 by (simp add: wordLoop_def)
  moreover have "map (\<lambda>(x, y, t). (y, t)) (drawTexts (cs1 @ cs2))
       = map (\<lambda>w. (ytext, itemText w)) (filter isEnabled (w # ws))"
    using d1 d2 by (simp add: drawTexts_append)
  ultimately show ?case by blast
qed

lemma lineLoop_append:
  "lineLoop P st r b yInc (ls1 @ ls2) y s
     = lineLoop P st r b yInc ls2 (((\<lambda>y. dadd y yInc) ^^ length ls1) y)
         (lineLoop P st r b yInc ls1 y s)"
  by (induction ls1 arbitrary: y s) (simp_all add: funpow_Suc_right del: funpow.simps)

lemma lineLoop_recorder_prefix:
  "\<exists>cs. lineLoop (recorder avgw txtw) st r b yInc ls y lg = lg @ cs"
proof (induction ls arbitrary: y lg)
  case Nil
  then show ?case by simp
next
  case (Cons l ls)
  obtain cs1 x1 p1 where 1: "wordLoop (recorder avgw txtw) st (dadd y (real_of_int b)) (children l)
      (rx r, rx r, lg) = (x1, p1, lg @ cs1)"
    using wordLoop_recorder_calls by blast
  obtain cs2 where "lineLoop (recorder avgw txtw) st r b yInc ls (dadd y yInc) (lg @ cs1) = (lg @ cs1) @ cs2"
    using Cons.IH by blast
  with 1 show ?case by simp
qed

lemma firstBaseLine_ok: "firstBaseLine cs = Inr (case cs of [] \<Rightarrow> 0 | c # _ \<Rightarrow> baseLine c)"
  by (cases cs) (simp_all add: firstBaseLine_def)

lemma printChildren_total:
  "\<exists>s'. printChildren P g item st sc s = Inr s'"
  "\<exists>s'. printEach P g items st sc s = Inr s'"
proof (induction P g item st sc s and P g items st sc s rule: printChildren_printEach.induct)
  case (1 P g item st sc s)
  then show ?case
    by (simp add: printChildren.simps firstBaseLine_ok Let_def del: printEach.simps)
next
  case (2 P g st sc s)
  then show ?case by simp
next
  case (3 P g c cs st sc s)
  then show ?case by (auto split: sum.splits)
qed

lemma ex_word_sel [simp]:
  "isEnabled (ex_word en x t) = en" "bbox (ex_word en x t) = \<lparr>rx = x, ry = 10, rwidth = 30, rheight = 20\<rparr>"
  "itemText (ex_word en x t) = t" "fontSize (ex_word en x t) = 12"
  by (simp_all add: ex_word_def)

lemma ex_settings_sel [simp]:
  "useDetectedFontSizes ex_settings = False" "preserveSpaceWidth ex_settings = 4"
  "uniformizeLineSpacing ex_settings = False" "overlay ex_settings = False"
  "useDetectedFontSizes ex_uniform = False" "preserveSpaceWidth ex_uniform = 4"
  "uniformizeLineSpacing ex_uniform = True" "overlay ex_uniform = False"
  by (simp_all add: ex_settings_def ex_uniform_def)

text \<open>
  C4. In the word loop of the uniform-spacing branch a disabled word changes nothing:
  the painter is left as it was (for the recording painter: no call is added), the
  cursor \<open>x\<close> and the reference right edge \<open>prevWordRight\<close> keep their values, and the loop
  over a line gives the same result as the loop over the line without that word.
\<close>

theorem disabled_word_leaves_cursor:
  assumes "\<not> isEnabled w"
  shows "wordStep P st ytext w (x, prevWordRight, s) = (x, prevWordRight, s) \<and>
         wordStep (recorder avgw txtw) st ytext w (x, prevWordRight, lg) = (x, prevWordRight, lg) \<and>
         wordLoop P st ytext (ws1 @ w # ws2) c = wordLoop P st ytext (ws1 @ ws2) c"
  using assms by (simp add: wordStep_disabled wordLoop_def)

theorem disabled_word_leaves_cursor_witness:
  "\<not> isEnabled (ex_word False 60 ''c'') \<and>
   wordStep ex_recorder ex_uniform 47 (ex_word False 60 ''c'') (30, 49, [DrawText 20 47 ''b''])
     = (30, 49, [DrawText 20 47 ''b'']) \<and>
   wordLoop ex_recorder ex_uniform 47
       [ex_word True 20 ''b'', ex_word False 60 ''c'', ex_word True 260 ''d''] (20, 20, [])
     = wordLoop ex_recorder ex_uniform 47 [ex_word True 20 ''b'', ex_word True 260 ''d''] (20, 20, [])"
  using disabled_word_leaves_cursor [where w = "ex_word False 60 ''c''" and P = ex_recorder
      and st = ex_uniform and ytext = 47 and x = 30 and prevWordRight = 49
      and s = "[DrawText 20 47 ''b'']" and ?ws1.0 = "[ex_word True 20 ''b'']"
      and ?ws2.0 = "[ex_word True 260 ''d'']" and c = "(20, 20, [])"]
  by simp



text \<open>
  The y coordinate of a line is not the closed form \<open>top + (k + 1) * (H / N) + baseline0\<close>:
  the loop adds \<open>yInc\<close> once per line and every sum is rounded. For a paragraph of three
  lines with top 10 and height 40, the third line is drawn at \<open>50 + 1 / 2 ^ 47\<close>, where the
  closed form gives 50, in exact arithmetic and in doubles alike.
\<close>

theorem uniform_line_y_not_closed_form:
  "isEnabled ex_par3 \<and> itemClass ex_par3 = ''ocr_par'' \<and> uniformizeLineSpacing ex_uniform \<and>
   length (children ex_par3) = 3 \<and> rtop (bbox ex_par3) = 10 \<and> rheight (bbox ex_par3) = 40 \<and>
   baseLine (children ex_par3 ! 0) = 0 \<and>
   printChildren ex_recorder ex_getSelection ex_par3 ex_uniform 1 []
     = Inr [DrawText 20 (3283874728290987 / 140737488355328) ''a'',
            DrawText 20 (2580187286514347 / 70368744177664) ''b'',
            DrawText 20 (50 + 1 / 2 ^ 47) ''c''] \<and>
   (10::real) + (2 + 1) * (40 / 3) + 0 = 50 \<and>
   dadd (dadd 10 (dmul (2 + 1) (ddiv 40 3))) 0 = 50 \<and>
   (50::real) + 1 / 2 ^ 47 \<noteq> 50"
  by code_simp

text \<open>
  C2, amended. For an enabled paragraph walked with uniform line spacing, with \<open>N > 0\<close>
  child lines, height \<open>H\<close> and top edge \<open>top\<close>, and for every \<open>k < N\<close>: the calls issued
  while line \<open>k\<close> is processed (those between the painter after \<open>k\<close> lines and the painter
  after \<open>k + 1\<close> lines, which stay in the final output) contain one \<open>drawText\<close> for every
  enabled word of line \<open>k\<close>, in order, each with the y coordinate obtained by adding
  \<open>yInc = H / N\<close> to \<open>top\<close> and then \<open>k\<close> more times, and adding \<open>baseline0\<close>, the baseline of
  the first child line, to the sum; the quotient and every sum are rounded to a double.
\<close>

theorem uniform_line_y_is_accumulated:
  fixes item :: HOCRItem and k :: nat and st :: PDFSettings and lg :: "Call list"
    and avgw :: "Call list \<Rightarrow> real" and txtw :: "string \<Rightarrow> Call list \<Rightarrow> real"
  defines "P \<equiv> recorder avgw txtw"
    and "N \<equiv> length (children item)"
    and "ptop \<equiv> rtop (bbox item)"
    and "H \<equiv> rheight (bbox item)"
    and "baseline0 \<equiv> baseLine (children item ! 0)"
  defines "yInc \<equiv> ddiv (real_of_int H) (real N)"
  defines "after \<equiv> (\<lambda>n. lineLoop P st (bbox item) baseline0 yInc (take n (children item))
                     (dadd (real_of_int ptop) yInc) lg)"
  assumes "isEnabled item" and "itemClass item = ''ocr_par''" and "uniformizeLineSpacing st"
    and "k < N"
  shows "printChildren P g item st imgScale lg = Inr (after N) \<and>
         take (length (after k)) (after (Suc k)) = after k \<and>
         take (length (after (Suc k))) (after N) = after (Suc k) \<and>
         map (\<lambda>(x, y, t). (y, t)) (drawTexts (drop (length (after k)) (after (Suc k))))
           = map (\<lambda>w. (dadd (((\<lambda>y. dadd y (ddiv (real_of_int H) (real N))) ^^ k)
                               (dadd (real_of_int ptop) (ddiv (real_of_int H) (real N))))
                          (real_of_int baseline0), itemText w))
               (filter isEnabled (children (children item ! k)))"
proof -
  let ?ls = "children item"
  let ?line = "?ls ! k"
  let ?yk = "((\<lambda>y. dadd y yInc) ^^ k) (dadd (real_of_int ptop) yInc)"
  from \<open>k < N\<close> have ne: "?ls \<noteq> []" and kl: "k < length ?ls"
    by (auto simp: N_def)
  have fb: "firstBaseLine ?ls = Inr baseline0"
    using ne by (cases ?ls) (simp_all add: firstBaseLine_ok baseline0_def)
  have run: "printChildren P g item st imgScale lg = Inr (after N)"
    using assms(8-10) fb
    by (simp add: printChildren.simps Let_def after_def N_def yInc_def H_def ptop_def)
  have step: "take (Suc k) ?ls = take k ?ls @ [?line]"
    using kl by (simp add: take_Suc_conv_app_nth)
  have next_eq: "after (Suc k) = lineLoop P st (bbox item) baseline0 yInc [?line] ?yk (after k)"
    unfolding after_def step lineLoop_append using kl by simp
  obtain cs xc pc where
    w: "wordLoop P st (dadd ?yk (real_of_int baseline0))
         (children ?line) (rx (bbox item), rx (bbox item), after k) = (xc, pc, after k @ cs)" and
    d: "map (\<lambda>(x, y, t). (y, t)) (drawTexts cs)
         = map (\<lambda>w. (dadd ?yk (real_of_int baseline0), itemText w))
             (filter isEnabled (children ?line))"
    unfolding P_def using wordLoop_recorder_calls by blast
  have nk: "after (Suc k) = after k @ cs"
    using next_eq w by simp
  obtain cs' where "after N = after (Suc k) @ cs'"
  proof -
    have "after N = lineLoop P st (bbox item) baseline0 yInc
        (take (Suc k) ?ls @ drop (Suc k) ?ls) (dadd (real_of_int ptop) yInc) lg"
      unfolding after_def N_def by simp
    then have "after N = lineLoop P st (bbox item) baseline0 yInc (drop (Suc k) ?ls)
       (((\<lambda>y. dadd y yInc) ^^ length (take (Suc k) ?ls)) (dadd (real_of_int ptop) yInc))
       (after (Suc k))"
      by (simp only: lineLoop_append after_def)
    then show ?thesis
      using lineLoop_recorder_prefix that unfolding P_def by metis
  qed
  with run nk d show ?thesis
    by (simp add: yInc_def)
qed

theorem uniform_line_y_is_accumulated_witness:
  "isEnabled ex_par \<and> itemClass ex_par = ''ocr_par'' \<and> uniformizeLineSpacing ex_uniform \<and>
   (1::nat) < length (children ex_par) \<and>
   baseLine (children ex_par ! 0) = - 3 \<and> baseLine (children ex_par ! 1) = - 7 \<and>
   printChildren ex_recorder ex_getSelection ex_par ex_uniform 1 []
     = Inr [DrawText 20 27 ''a'', DrawText 20 47 ''b'', DrawText 260 47 ''d''] \<and>
   map (\<lambda>(x, y, t). (y, t))
     (drawTexts (drop (length (lineLoop ex_recorder ex_uniform (bbox ex_par) (- 3) (ddiv 40 2)
                                 (take 1 (children ex_par)) (dadd 10 (ddiv 40 2)) []))
                  (lineLoop ex_recorder ex_uniform (bbox ex_par) (- 3) (ddiv 40 2)
                     (take 2 (children ex_par)) (dadd 10 (ddiv 40 2)) [])))
     = [(47, ''b''), (47, ''d'')]"
proof -
  have ev: "printChildren ex_recorder ex_getSelection ex_par ex_uniform 1 []
      = Inr [DrawText 20 27 ''a'', DrawText 20 47 ''b'', DrawText 260 47 ''d'']"
    by code_simp
  have y: "dadd (dadd (dadd 10 (ddiv 40 2)) (ddiv 40 2)) (- 3) = 47"
    by code_simp
  from uniform_line_y_is_accumulated [where item = ex_par and k = 1 and avgw = "\<lambda>s. 5"
      and txtw = "\<lambda>t s. 5 * real (length t)" and st = ex_uniform and lg = "[]"
      and g = ex_getSelection and imgScale = 1] ev y
  show ?thesis
    by (simp add: ex_par_def ex_recorder_def rtop_def numeral_2_eq_2)
qed

text \<open>
  C8. For a paragraph without children walked with uniform line spacing,
  \<open>printChildren\<close> returns without a fault and leaves the painter as it was (for the
  recording painter: no call is added). The baseline lookup is guarded by the child
  count and yields 0; the only division is one of doubles, whose quotient is not used.
\<close>

theorem empty_paragraph_noop:
  assumes "itemClass item = ''ocr_par''" and "uniformizeLineSpacing st" and "children item = []"
  shows "firstBaseLine (children item) = Inr 0 \<and>
         printChildren P g item st imgScale s = Inr s \<and>
         printChildren (recorder avgw txtw) g item st imgScale lg = Inr lg"
  using assms by (simp add: printChildren.simps firstBaseLine_def)

theorem empty_paragraph_noop_witness:
  "itemClass ex_empty_par = ''ocr_par'' \<and> uniformizeLineSpacing ex_uniform \<and>
   children ex_empty_par = [] \<and> isEnabled ex_empty_par \<and>
   printChildren ex_recorder ex_getSelection ex_empty_par ex_uniform 1 [] = Inr []"
  using empty_paragraph_noop [where item = ex_empty_par and st = ex_uniform and P = ex_recorder
      and g = ex_getSelection and imgScale = 1 and s = "[]"]
  by (simp add: ex_empty_par_def)

text \<open>
  C1 asks that no drawing call is ever issued for a disabled item or one of its
  descendants. The walk checks the flag of the item it is called on and, in the
  uniform-spacing branch, of each word; the line branch draws its words without looking
  at their flags, and the uniform-spacing branch processes its lines without looking at
  theirs. So a disabled word of an enabled line is drawn when uniform spacing is off,
  and the words of a disabled line of an enabled paragraph are drawn when it is on.
\<close>

theorem disabled_items_are_drawn:
  "isEnabled ex_line \<and> children ex_line = [ex_disabled_word] \<and> \<not> isEnabled ex_disabled_word \<and>
   \<not> uniformizeLineSpacing ex_settings \<and>
   printChildren ex_recorder ex_getSelection ex_line ex_settings 1 []
     = Inr [DrawText 100 69 ''Hello''] \<and>
   isEnabled ex_par_disabled_line \<and> \<not> isEnabled (hd (children ex_par_disabled_line)) \<and>
   uniformizeLineSpacing ex_uniform \<and>
   printChildren ex_recorder ex_getSelection ex_par_disabled_line ex_uniform 1 []
     = Inr [DrawText 20 47 ''z'']"
  by code_simp

subsection \<open>The export run\<close>

lemma renderPage_ok:
  "\<exists>pg fs. renderPage E inp f page = Inr (pg, fs) \<and>
     pageWidth pg = real_of_int (rwidth (bbox (pageItem page))) * (72 / real_of_int (resolution page)) \<and>
     pageHeight pg = real_of_int (rheight (bbox (pageItem page))) * (72 / real_of_int (resolution page))"
proof -
  obtain s2 where "printChildren (PoDoFoPDFPainter E) (getSelection inp page (outputDpi inp))
      (pageItem page) (pdfSettings inp)
      (real_of_int (outputDpi inp) / real_of_int (resolution page))
      (PoDoFo_setFontSize (real_of_int (fontPointSize inp))
         (newPoDoFoPainter (createPage page) f (docScale page))) = Inr s2"
    using printChildren_total(1) [of "PoDoFoPDFPainter E"] by meson
  then show ?thesis
    by (simp add: renderPage_def Let_def createPage_def docScale_def)
qed

lemma pageLoop_ok:
  "\<exists>ex'. pageLoop E inp pages ex = Inr ex' \<and>
     failed ex' = failed ex @ map title (failedPages inp pages) \<and>
     map pageSize (document ex') = map pageSize (document ex) @
       map (\<lambda>p. (real_of_int (rwidth (bbox (pageItem p))) * (72 / real_of_int (resolution p)),
                 real_of_int (rheight (bbox (pageItem p))) * (72 / real_of_int (resolution p))))
         (renderedPages inp pages)"
proof (induction pages arbitrary: ex)
  case Nil
  then show ?case by (simp add: failedPages_def renderedPages_def)
next
  case (Cons page pages)
  show ?case
  proof (cases "isEnabled (pageItem page)")
    case False
    with Cons.IH [of ex] show ?thesis
      by (simp add: failedPages_def renderedPages_def)
  next
    case en: True
    show ?thesis
    proof (cases "addSource inp (sourceFile page)")
      case False
      with en Cons.IH [of "ex\<lparr>failed := failed ex @ [title page]\<rparr>"] show ?thesis
        by (simp add: failedPages_def renderedPages_def)
    next
      case True
      obtain pg fs where r: "renderPage E inp (docFontSize ex) page = Inr (pg, fs)"
        and w: "pageWidth pg = real_of_int (rwidth (bbox (pageItem page))) * (72 / real_of_int (resolution page))"
        and h: "pageHeight pg = real_of_int (rheight (bbox (pageItem page))) * (72 / real_of_int (resolution page))"
        using renderPage_ok by blast
      with en True Cons.IH [of "ex\<lparr>document := document ex @ [pg], docFontSize := fs\<rparr>"]
      show ?thesis
        by (simp add: failedPages_def renderedPages_def pageSize_def)
    qed
  qed
qed

lemma ex_pages_sel [simp]:
  "isEnabled (pageItem ex_page1)" "isEnabled (pageItem ex_page2)" "\<not> isEnabled (pageItem ex_page3)"
  "sourceFile ex_page1 = ''scan1.png''" "sourceFile ex_page2 = ''missing.png''"
  "title ex_page1 = ''Page 1''" "title ex_page2 = ''Page 2''"
  "resolution ex_page1 = 300" "resolution ex_page2 = 300"
  "bbox (pageItem ex_page1) = \<lparr>rx = 0, ry = 0, rwidth = 2550, rheight = 3300\<rparr>"
  by (simp_all add: ex_page1_def ex_page2_def ex_page3_def ex_hello_item_def)

lemma ex_input_sel [simp]:
  "addSource ex_input f = (f = ''scan1.png'')" "closeError ex_input = None"
  "openOutputPdf ex_input = False" "pdfSettings ex_input = ex_settings"
  "outputDpi ex_input = 300" "fontPointSize ex_input = 12"
  by (simp_all add: ex_input_def)

lemma renderPage_renders:
  "\<exists>pg fs. renderPage E inp f page = Inr (pg, fs) \<and> rendersAs E inp page pg"
proof -
  let ?s1 = "\<lparr>p_ops = [], p_fontSize = real_of_int (fontPointSize inp),
     m_scaleFactor = 72 / real_of_int (resolution page),
     m_pageHeight = real_of_int (rheight (bbox (pageItem page))) * (72 / real_of_int (resolution page))\<rparr>"
  have s1: "PoDoFo_setFontSize (real_of_int (fontPointSize inp))
      (newPoDoFoPainter (createPage page) f (docScale page)) = ?s1"
    by (simp add: PoDoFo_setFontSize_def newPoDoFoPainter_def createPage_def docScale_def)
  obtain s2 where p: "printChildren (PoDoFoPDFPainter E) (getSelection inp page (outputDpi inp))
      (pageItem page) (pdfSettings inp)
      (real_of_int (outputDpi inp) / real_of_int (resolution page)) ?s1 = Inr s2"
    using printChildren_total(1) [of "PoDoFoPDFPainter E"] by meson
  show ?thesis
    unfolding renderPage_def rendersAs_def Let_def s1 p
    by (simp add: createPage_def docScale_def PoDoFoPDFPainter_def)
qed

lemma pageLoop_renders:
  "\<exists>ex'. pageLoop E inp pages ex = Inr ex' \<and>
     (\<exists>ds. document ex' = document ex @ ds \<and>
           list_all2 (rendersAs E inp) (renderedPages inp pages) ds)"
proof (induction pages arbitrary: ex)
  case Nil
  then show ?case by (simp add: renderedPages_def)
next
  case (Cons page pages)
  show ?case
  proof (cases "isEnabled (pageItem page)")
    case False
    with Cons.IH [of ex] show ?thesis
      by (simp add: renderedPages_def)
  next
    case en: True
    show ?thesis
    proof (cases "addSource inp (sourceFile page)")
      case False
      with en Cons.IH [of "ex\<lparr>failed := failed ex @ [title page]\<rparr>"] show ?thesis
        by (simp add: renderedPages_def)
    next
      case True
      obtain pg fs where r: "renderPage E inp (docFontSize ex) page = Inr (pg, fs)"
        and ra: "rendersAs E inp page pg"
        using renderPage_renders by blast
      obtain ex' ds where l: "pageLoop E inp pages (ex\<lparr>document := document ex @ [pg], docFontSize := fs\<rparr>) = Inr ex'"
        and d: "document ex' = (document ex @ [pg]) @ ds"
        and a: "list_all2 (rendersAs E inp) (renderedPages inp pages) ds"
        using Cons.IH [of "ex\<lparr>document := document ex @ [pg], docFontSize := fs\<rparr>"] by auto
      have "list_all2 (rendersAs E inp) (renderedPages inp (page # pages)) (pg # ds)"
        using en True ra a by (simp add: renderedPages_def)
      with en True r l d show ?thesis
        by auto
    qed
  qed
qed

lemma ex_page1_rendersAs:
  assumes "pdfSettings inp = ex_settings" and "outputDpi inp = 300" and "fontPointSize inp = 12"
  shows "rendersAs ex_externals inp ex_page1 pg =
     (pg = \<lparr>pageWidth = 612, pageHeight = 792,
             pageContent = [PdfDrawText 24 (18306 / 25) ''Hello'' 12,
                            PdfDrawText 96 (18306 / 25) ''World'' 12]\<rparr>)"
  using assms
  by (simp add: rendersAs_def printChildren.simps ex_hello_item_def ex_page1_def
      PoDoFoPDFPainter_def PoDoFo_drawText_def lineWordStep_def rbottom_def Let_def
      ex_settings_def)

text \<open>
  C5. For every export run (from the page loop on): no fault occurs; the pages written
  are, in page order, the output pages of the enabled pages whose source could be
  added, each with the size and the content that rendering that page gives, so a page
  whose source cannot be added is skipped and the pages after it are still rendered;
  the titles of the skipped pages are reported in one warning, in page order, and only
  when there is one; the document is closed in every case; an error of the close is
  reported by a warning of its own and makes the result false, while page failures
  alone leave it true.
\<close>

theorem page_failures_are_collected:
  "\<exists>r. run E inp pages = Inr r \<and>
     list_all2 (rendersAs E inp) (renderedPages inp pages) (written r) \<and>
     length (written r) = length (renderedPages inp pages) \<and>
     returned r = (closeError inp = None) \<and>
     effects r =
       (if failedPages inp pages = [] then []
        else [WarnNotRendered (map title (failedPages inp pages))])
       @ [DocumentClose]
       @ (case closeError inp of None \<Rightarrow> [] | Some msg \<Rightarrow> [WarnExportFailed msg])
       @ (if openOutputPdf inp \<and> closeError inp = None then [OpenUrl] else [])"
proof -
  let ?ex0 = "\<lparr>document = [], docFontSize = 12, failed = []\<rparr>"
  obtain ex' where p: "pageLoop E inp pages ?ex0 = Inr ex'"
    and f: "failed ex' = map title (failedPages inp pages)"
    using pageLoop_ok [of E inp pages ?ex0] by auto
  obtain ex'' ds where p': "pageLoop E inp pages ?ex0 = Inr ex''"
    and d: "document ex'' = document ?ex0 @ ds"
    and a: "list_all2 (rendersAs E inp) (renderedPages inp pages) ds"
    using pageLoop_renders [of E inp pages ?ex0] by blast
  from p p' have "ex'' = ex'" by simp
  with d a have a': "list_all2 (rendersAs E inp) (renderedPages inp pages) (document ex')"
    by simp
  then have "length (document ex') = length (renderedPages inp pages)"
    by (simp add: list_all2_lengthD)
  with p f a' show ?thesis
    by (simp add: run_def Let_def)
qed

theorem page_failures_are_collected_witness:
  "renderedPages ex_input [ex_page1, ex_page2, ex_page3] = [ex_page1] \<and>
   failedPages ex_input [ex_page1, ex_page2, ex_page3] = [ex_page2] \<and>
   (\<exists>r. run ex_externals ex_input [ex_page1, ex_page2, ex_page3] = Inr r \<and>
        written r = [\<lparr>pageWidth = 612, pageHeight = 792,
                       pageContent = [PdfDrawText 24 (18306 / 25) ''Hello'' 12,
                                      PdfDrawText 96 (18306 / 25) ''World'' 12]\<rparr>] \<and>
        returned r \<and>
        effects r = [WarnNotRendered [''Page 2''], DocumentClose]) \<and>
   (\<exists>r. run ex_externals (ex_input\<lparr>closeError := Some ''disk full''\<rparr>)
          [ex_page1, ex_page2, ex_page3] = Inr r \<and>
        written r = [\<lparr>pageWidth = 612, pageHeight = 792,
                       pageContent = [PdfDrawText 24 (18306 / 25) ''Hello'' 12,
                                      PdfDrawText 96 (18306 / 25) ''World'' 12]\<rparr>] \<and>
        \<not> returned r \<and>
        effects r = [WarnNotRendered [''Page 2''], DocumentClose, WarnExportFailed ''disk full''])"
  using page_failures_are_collected [of ex_externals ex_input "[ex_page1, ex_page2, ex_page3]"]
    page_failures_are_collected [of ex_externals "ex_input\<lparr>closeError := Some ''disk full''\<rparr>"
      "[ex_page1, ex_page2, ex_page3]"]
  by (simp add: renderedPages_def failedPages_def list_all2_Cons1 ex_page1_rendersAs) blast

text \<open>
  An enabled page whose source cannot be added gets no output page: its title goes to
  the warning instead.
\<close>

theorem unresolved_page_creates_no_page:
  "isEnabled (pageItem ex_page2) \<and>
   run ex_externals ex_input [ex_page2]
     = Inr \<lparr>returned = True, written = [], effects = [WarnNotRendered [''Page 2''], DocumentClose]\<rparr>"
  by (simp add: run_def)

text \<open>
  C7, amended. For every enabled hOCR page whose source image can be added, of \<open>W\<close> by
  \<open>H\<close> pixels at \<open>sourceDPI\<close>, exactly one output page is created, of
  \<open>W * 72 / sourceDPI\<close> by \<open>H * 72 / sourceDPI\<close> points, in page order; a page of 2550 by
  3300 pixels at 300 DPI yields one page of 612 by 792 points. Disabled pages, and
  pages whose source cannot be added, create no output page.
\<close>

theorem one_page_per_rendered_page:
  "\<exists>r. run E inp pages = Inr r \<and>
     map pageSize (written r) =
       map (\<lambda>p. (real_of_int (rwidth (bbox (pageItem p))) * (72 / real_of_int (resolution p)),
                 real_of_int (rheight (bbox (pageItem p))) * (72 / real_of_int (resolution p))))
         (renderedPages inp pages)"
proof -
  obtain ex' where p: "pageLoop E inp pages \<lparr>document = [], docFontSize = 12, failed = []\<rparr> = Inr ex'"
    and d: "map pageSize (document ex') =
       map (\<lambda>p. (real_of_int (rwidth (bbox (pageItem p))) * (72 / real_of_int (resolution p)),
                 real_of_int (rheight (bbox (pageItem p))) * (72 / real_of_int (resolution p))))
         (renderedPages inp pages)"
    using pageLoop_ok [of E inp pages "\<lparr>document = [], docFontSize = 12, failed = []\<rparr>"] by auto
  then show ?thesis
    by (simp add: run_def Let_def)
qed

theorem one_page_per_rendered_page_witness:
  "renderedPages ex_input [ex_page1, ex_page3] = [ex_page1] \<and>
   (\<exists>r. run ex_externals ex_input [ex_page1, ex_page3] = Inr r \<and>
        map pageSize (written r) = [(612, 792)])"
  using one_page_per_rendered_page [of ex_externals ex_input "[ex_page1, ex_page3]"]
  by (simp add: renderedPages_def)

text \<open>
  The scenario of one page with the words Hello and World: one page of 612 by 792
  points with two text operators and no image operator.
\<close>

lemma hello_world_export:
  "run ex_externals ex_input [ex_page1]
     = Inr \<lparr>returned = True,
            written = [\<lparr>pageWidth = 612, pageHeight = 792,
                        pageContent = [PdfDrawText 24 (18306 / 25) ''Hello'' 12,
                                       PdfDrawText 96 (18306 / 25) ''World'' 12]\<rparr>],
            effects = [DocumentClose]\<rparr>"
  by (simp add: run_def renderPage_def createPage_def docScale_def newPoDoFoPainter_def
      PoDoFo_setFontSize_def printChildren.simps ex_hello_item_def ex_page1_def
      PoDoFoPDFPainter_def PoDoFo_drawText_def lineWordStep_def rbottom_def Let_def
      ex_settings_def)

subsection \<open>The file backend\<close>

text \<open>
  C6. On the file backend with scale factor \<open>s = 72 / sourceDPI\<close> and page height \<open>H\<close>,
  \<open>drawText x y text\<close> appends one text operator at \<open>(x * s, H - y * s)\<close> and changes
  nothing else; no method of the backend changes the scale factor or the page height;
  and the painter that \<open>run\<close> constructs for a page has this scale factor, and the
  height of the page just created as its page height.
\<close>

theorem file_backend_text_position:
  assumes "m_scaleFactor s = 72 / real_of_int sourceDpi" and "m_pageHeight s = H"
  shows "drawText (PoDoFoPDFPainter E) x y t s =
           s\<lparr>p_ops := p_ops s @
              [PdfDrawText (x * (72 / real_of_int sourceDpi)) (H - y * (72 / real_of_int sourceDpi)) t
                 (p_fontSize s)]\<rparr> \<and>
         m_scaleFactor (drawText (PoDoFoPDFPainter E) x y t s) = m_scaleFactor s \<and>
         m_pageHeight (drawText (PoDoFoPDFPainter E) x y t s) = m_pageHeight s \<and>
         m_scaleFactor (setFontSize (PoDoFoPDFPainter E) pointSize s) = m_scaleFactor s \<and>
         m_pageHeight (setFontSize (PoDoFoPDFPainter E) pointSize s) = m_pageHeight s \<and>
         m_scaleFactor (drawImage (PoDoFoPDFPainter E) r im st s) = m_scaleFactor s \<and>
         m_pageHeight (drawImage (PoDoFoPDFPainter E) r im st s) = m_pageHeight s \<and>
         m_scaleFactor (newPoDoFoPainter (createPage page) f (docScale page))
           = 72 / real_of_int (resolution page) \<and>
         m_pageHeight (newPoDoFoPainter (createPage page) f (docScale page))
           = real_of_int (rheight (bbox (pageItem page))) * (72 / real_of_int (resolution page))"
  using assms
  by (simp add: PoDoFoPDFPainter_def PoDoFo_drawText_def PoDoFo_setFontSize_def
      PoDoFo_drawImage_def newPoDoFoPainter_def createPage_def docScale_def)

theorem file_backend_text_position_witness:
  "m_scaleFactor (newPoDoFoPainter (createPage ex_page1) 12 (docScale ex_page1)) = 72 / real_of_int 300 \<and>
   m_pageHeight (newPoDoFoPainter (createPage ex_page1) 12 (docScale ex_page1)) = 792 \<and>
   p_ops (drawText (PoDoFoPDFPainter ex_externals) 100 249 ''Hello''
            (newPoDoFoPainter (createPage ex_page1) 12 (docScale ex_page1)))
     = [PdfDrawText 24 (18306 / 25) ''Hello'' 12]"
proof -
  let ?s = "newPoDoFoPainter (createPage ex_page1) 12 (docScale ex_page1)"
  have a: "m_scaleFactor ?s = 72 / real_of_int 300" and b: "m_pageHeight ?s = 792"
    by (simp_all add: newPoDoFoPainter_def createPage_def docScale_def)
  have s: "p_ops ?s = []" "p_fontSize ?s = 12"
    by (simp_all add: newPoDoFoPainter_def)
  have "p_ops (drawText (PoDoFoPDFPainter ex_externals) 100 249 ''Hello'' ?s)
      = p_ops ?s @ [PdfDrawText (100 * (72 / real_of_int 300)) (792 - 249 * (72 / real_of_int 300))
          ''Hello'' (p_fontSize ?s)]"
    by (subst conjunct1 [OF file_backend_text_position [OF a b]]) simp
  then show ?thesis
    using a b by (simp add: s)
qed

lemma invertPixels_monoSample:
  assumes ok: "image_ok img" and f: "iformat img = Format_Mono"
    and x: "int x < iwidth img" and y: "int y < iheight img"
  shows "monoSample (invertPixels img) x y = (\<not> monoSample img x y)"
proof -
  let ?l = "scanLines img ! y"
  let ?bpl = "nat ((iwidth img * depth (iformat img) + 7) div 8)"
  have yl: "y < length (scanLines img)"
    using ok y by (simp add: image_ok_def)
  then have "?l \<in> set (scanLines img)"
    by simp
  with ok f have len: "int (length ?l) = (iwidth img + 31) div 32 * 4"
    by (simp add: image_ok_def list_all_iff qt_bytesPerLine_def depth_def)
  have b: "x div 8 < ?bpl"
    using x f by (simp add: depth_def; linarith)
  have "int ?bpl \<le> int (length ?l)"
    using x f unfolding len by (simp add: depth_def; linarith)
  then have bl: "?bpl \<le> length ?l"
    by linarith
  have "scanLines (invertPixels img) ! y = map NOT (take ?bpl ?l) @ drop ?bpl ?l"
    using yl by (simp add: invertPixels_def Let_def)
  then have "scanLines (invertPixels img) ! y ! (x div 8) = NOT (?l ! (x div 8))"
    using b bl by (simp add: nth_append)
  moreover have "7 - x mod 8 < (8::nat)"
    by arith
  ultimately show ?thesis
    by (simp add: monoSample_def bit_not_iff)
qed

text \<open>
  C10. When the colour format is Mono, the file backend hands the inverted converted
  image to the encoder under each of the three compression schemes (Zip, Fax4, Jpeg);
  the preview backend draws the converted image (through a Jpeg round trip under
  Jpeg) and never inverts; and for a well-formed one-bit converted image every pixel
  sample the file backend encodes is the complement of the converted image's.
\<close>

theorem mono_inverted_for_every_compression:
  assumes "colorFormat st = Format_Mono"
  shows "PoDoFo_image E im st = invertPixels (convertedImage E im Format_Mono (conversionFlags st)) \<and>
    streamData (PoDoFo_pdfImage E im st) =
      (case compression st of
         CompressZip \<Rightarrow> flateEncode E (packRows Format_Mono
            (invertPixels (convertedImage E im Format_Mono (conversionFlags st))))
       | CompressFax4 \<Rightarrow> fax4Encode E
            (scanLines (invertPixels (convertedImage E im Format_Mono (conversionFlags st))))
            (iwidth (invertPixels (convertedImage E im Format_Mono (conversionFlags st))))
            (iheight (invertPixels (convertedImage E im Format_Mono (conversionFlags st))))
            (qt_bytesPerLine (iformat (invertPixels (convertedImage E im Format_Mono (conversionFlags st))))
               (iwidth (invertPixels (convertedImage E im Format_Mono (conversionFlags st)))))
       | CompressJpeg \<Rightarrow> saveJpg E
            (invertPixels (convertedImage E im Format_Mono (conversionFlags st)))
            (compressionQuality st)) \<and>
    QPainter_image E im st =
      (if compression st = CompressJpeg
       then fromData E (saveJpg E (convertedImage E im Format_Mono (conversionFlags st))
              (compressionQuality st))
       else convertedImage E im Format_Mono (conversionFlags st)) \<and>
    (image_ok (convertedImage E im Format_Mono (conversionFlags st)) \<and>
     iformat (convertedImage E im Format_Mono (conversionFlags st)) = Format_Mono \<longrightarrow>
       (\<forall>x y. int x < iwidth (convertedImage E im Format_Mono (conversionFlags st)) \<and>
              int y < iheight (convertedImage E im Format_Mono (conversionFlags st)) \<longrightarrow>
          monoSample (PoDoFo_image E im st) x y
            = (\<not> monoSample (convertedImage E im Format_Mono (conversionFlags st)) x y)))"
  using assms
  by (simp add: PoDoFo_image_def PoDoFo_pdfImage_def QPainter_image_def Let_def
      invertPixels_monoSample split: Compression.split)

theorem mono_inverted_for_every_compression_witness:
  "colorFormat (ex_mono CompressFax4) = Format_Mono \<and> image_ok zip_example \<and>
   iformat zip_example = Format_Mono \<and>
   PoDoFo_image ex_externals zip_example (ex_mono CompressFax4) = invertPixels zip_example \<and>
   PoDoFo_image ex_externals zip_example (ex_mono CompressZip) = invertPixels zip_example \<and>
   PoDoFo_image ex_externals zip_example (ex_mono CompressJpeg) = invertPixels zip_example \<and>
   scanLines (invertPixels zip_example) = [[0x5A, 0xBF, 0, 0], [0xC3, 0x7F, 0, 0]] \<and>
   QPainter_image ex_externals zip_example (ex_mono CompressFax4) = zip_example \<and>
   monoSample zip_example 0 0 \<and> \<not> monoSample (PoDoFo_image ex_externals zip_example (ex_mono CompressFax4)) 0 0"
proof -
  have ok: "image_ok zip_example"
    by (simp add: image_ok_def zip_example_def qt_bytesPerLine_def depth_def)
  have fm: "iformat zip_example = Format_Mono" and sz: "int 0 < iwidth zip_example" "int 0 < iheight zip_example"
    by (simp_all add: zip_example_def)
  have m: "monoSample zip_example 0 0"
    by (simp add: monoSample_def zip_example_def)
  have inv: "scanLines (invertPixels zip_example) = [[0x5A, 0xBF, 0, 0], [0xC3, 0x7F, 0, 0]]"
    by (simp add: invertPixels_def zip_example_def depth_def)
  have cf: "colorFormat (ex_mono c) = Format_Mono" "compression (ex_mono c) = c"
    "convertedImage ex_externals zip_example Format_Mono (conversionFlags (ex_mono c)) = zip_example" for c
    by (simp_all add: ex_mono_def ex_externals_def)
  note t = mono_inverted_for_every_compression [OF cf(1), where E = ex_externals and im = zip_example,
      unfolded cf]
  have "\<not> monoSample (PoDoFo_image ex_externals zip_example (ex_mono CompressFax4)) 0 0"
    using t [of CompressFax4] ok fm sz m by blast
  with t [of CompressFax4] t [of CompressZip] t [of CompressJpeg] ok fm m inv cf(1) show ?thesis
    by simp
qed

end
